theory Spec2Isabelle
  imports Complex_Main
begin

section \<open>Bayesian ranking of coins: the \<open>Coin\<close> class of 01-BayesianRanking.ipynb\<close>

text \<open>
  The notebook defines one class, \<open>Coin\<close>, with the methods \<open>toss\<close>, \<open>sample\<close>,
  \<open>update\<close>, \<open>plot\<close> and \<open>simulate\<close>. An object of the class plays two roles: a single
  coin (its \<open>p\<close> is a number) and the experiment (its \<open>p\<close> is the list of true
  probabilities, and \<open>simulate\<close> builds one coin per entry).

  How the code is read:
  \<^item> Floating-point numbers are reals: the code only compares them
    (\<open>sample > maxsample\<close>, \<open>rand() < p\<close>) and never computes with them.
  \<^item> The counters \<open>alpha\<close> and \<open>beta\<close> are unbounded integers. They start as Python
    integers and become 64-bit numpy integers at the first addition of a numpy boolean;
    a run long enough to wrap them is out of reach.
  \<^item> numpy's global generator is a state that every draw reads and replaces; the
    user at the \<open>Continue?\<close> prompt is a function from the trial index to the reply.
  \<^item> \<open>print\<close>, \<open>plot\<close> and \<open>clear_output\<close> only display, and are left out.
\<close>

subsection \<open>Errors\<close>

text \<open>
  \<open>UnboundLocalError\<close>: reading the local \<open>maxcoin\<close> of \<open>simulate\<close> before any
  assignment. \<open>ValueError\<close>: what numpy's \<open>beta\<close> raises for a non-positive parameter.
\<close>

datatype error = UnboundLocalError | ValueError

subsection \<open>The random source and the user\<close>

text \<open>
  The code draws from numpy's global generator, \<open>np.random.rand()\<close> and
  \<open>np.random.beta(a, b)\<close>, and never seeds it. The generator is a parameter of the model:
  a state of type \<open>'g\<close> and the two draws, each returning its value and the next state.
\<close>

record 'g random_source =
  np_rand :: "'g \<Rightarrow> real \<times> 'g"
  np_beta :: "int \<Rightarrow> int \<Rightarrow> 'g \<Rightarrow> error + real \<times> 'g"

text \<open>
  What numpy documents for \<open>beta\<close>: with both parameters positive the call returns a
  value of the interval \<open>[0, 1]\<close>.
\<close>

definition beta_contract :: "'g random_source \<Rightarrow> bool" where
  "beta_contract rs \<longleftrightarrow>
     (\<forall>a b g. 0 < a \<and> 0 < b \<longrightarrow> (\<exists>v g'. np_beta rs a b g = Inr (v, g') \<and> 0 \<le> v \<and> v \<le> 1))"

subsection \<open>The class \<open>Coin\<close>\<close>

record coin =
  p :: real
  alpha :: int
  beta :: int

definition Coin :: "real \<Rightarrow> coin" where
  "Coin true_p = \<lparr>p = true_p, alpha = 1, beta = 1\<rparr>"

definition toss :: "'g random_source \<Rightarrow> coin \<Rightarrow> 'g \<Rightarrow> bool \<times> 'g" where
  "toss rs self g = (case np_rand rs g of (u, g') \<Rightarrow> (u < p self, g'))"

definition sample :: "'g random_source \<Rightarrow> coin \<Rightarrow> 'g \<Rightarrow> error + real \<times> 'g" where
  "sample rs self g = np_beta rs (alpha self) (beta self) g"

text \<open>
  \<open>update(x)\<close> tests the truth of \<open>x\<close> and then adds \<open>x\<close>, or \<open>1 - x\<close>, as a number.
  \<open>simulate\<close> passes the boolean that \<open>toss\<close> returns, which counts as \<open>1\<close> or \<open>0\<close>
  in the addition (\<open>of_bool\<close>).
\<close>

definition update :: "coin \<Rightarrow> int \<Rightarrow> coin" where
  "update self x =
     (if x \<noteq> 0 then self\<lparr>alpha := alpha self + x\<rparr>
      else self\<lparr>beta := beta self + (1 - x)\<rparr>)"

subsection \<open>\<open>simulate\<close>\<close>

text \<open>
  The local variables of \<open>simulate\<close> and the state of the generator. A coin object is
  known by its position in \<open>coins\<close>; \<open>maxcoin\<close> is \<open>None\<close> while the variable is unbound.
  \<open>maxcoin\<close> is not reset at the start of a trial, \<open>maxsample\<close> and \<open>samples\<close> are.
\<close>

record 'g frame =
  coins :: "coin list"
  maxsample :: real
  samples :: "real list"
  maxcoin :: "nat option"
  gen :: 'g

text \<open>The loop \<open>for coin in coins\<close>, over the coins paired with their positions.\<close>

fun sample_loop :: "'g random_source \<Rightarrow> (nat \<times> coin) list \<Rightarrow> 'g frame \<Rightarrow> error + 'g frame" where
  "sample_loop rs [] s = Inr s"
| "sample_loop rs ((j, c) # rest) s =
     (case sample rs c (gen s) of
        Inl e \<Rightarrow> Inl e
      | Inr (v, g') \<Rightarrow>
          (let s1 = s\<lparr>samples := samples s @ [v], gen := g'\<rparr>;
               s2 = (if v > maxsample s1 then s1\<lparr>maxsample := v, maxcoin := Some j\<rparr> else s1)
           in sample_loop rs rest s2))"

text \<open>
  One pass of the body of \<open>for i in range(n)\<close>, up to and including
  \<open>maxcoin.update(maxcoin.toss())\<close>. Besides the new frame it returns what the trial did:
  the position of the coin tossed and the outcome of the toss.
\<close>

definition trial :: "'g random_source \<Rightarrow> 'g frame \<Rightarrow> error + 'g frame \<times> (nat \<times> bool)" where
  "trial rs s =
     (case sample_loop rs (List.enumerate 0 (coins s)) (s\<lparr>maxsample := - 1, samples := []\<rparr>) of
        Inl e \<Rightarrow> Inl e
      | Inr s1 \<Rightarrow>
          (case maxcoin s1 of
             None \<Rightarrow> Inl UnboundLocalError
           | Some m \<Rightarrow>
               (case toss rs (coins s1 ! m) (gen s1) of
                  (x, g') \<Rightarrow>
                    Inr (s1\<lparr>coins := (coins s1)[m := update (coins s1 ! m) (of_bool x)],
                             gen := g'\<rparr>,
                         (m, x)))))"

text \<open>The trial indices after which the code plots and asks \<open>Continue?\<close>.\<close>

definition pauses :: "nat list" where
  "pauses = [5, 10, 20, 50, 100, 200, 500, 1000, 2000, 5000, 9999]"

text \<open>
  The loop \<open>for i in range(n)\<close>. \<open>reply i\<close> is what the user types at the prompt shown
  after trial \<open>i\<close>; the reply \<open>n\<close> leaves the loop. The second component collects, in
  order, what each executed trial did.
\<close>

fun trials :: "'g random_source \<Rightarrow> (nat \<Rightarrow> string) \<Rightarrow> nat list \<Rightarrow>
    'g frame \<times> (nat \<times> bool) list \<Rightarrow> error + 'g frame \<times> (nat \<times> bool) list" where
  "trials rs reply [] st = Inr st"
| "trials rs reply (i # rest) (s, tr) =
     (case trial rs s of
        Inl e \<Rightarrow> Inl e
      | Inr (s', r) \<Rightarrow>
          if i \<in> set pauses \<and> reply i = ''n'' then Inr (s', tr @ [r])
          else trials rs reply rest (s', tr @ [r]))"

text \<open>
  The frame on entry to the loop, after \<open>coins = [Coin(true_p) for true_p in self.p]\<close>.
  \<open>maxsample\<close> and \<open>samples\<close> are unbound until the first trial assigns them; the values
  given to them here are never read.
\<close>

definition start :: "real list \<Rightarrow> 'g \<Rightarrow> 'g frame" where
  "start ps g = \<lparr>coins = map Coin ps, maxsample = - 1, samples = [], maxcoin = None, gen = g\<rparr>"

text \<open>
  \<open>simulate(n)\<close> on an experiment whose \<open>p\<close> is the list \<open>ps\<close>, with the generator in
  state \<open>g\<close>. \<open>range(n)\<close> is empty for \<open>n \<le> 0\<close>. The code returns \<open>None\<close> after printing
  \<open>Simulation completed!\<close>; the model returns the final frame and the record of the trials.
\<close>

definition simulate :: "'g random_source \<Rightarrow> (nat \<Rightarrow> string) \<Rightarrow> real list \<Rightarrow> int \<Rightarrow> 'g \<Rightarrow>
    error + 'g frame \<times> (nat \<times> bool) list" where
  "simulate rs reply ps n g = trials rs reply [0..<nat n] (start ps g, [])"

subsection \<open>Notions used to state the properties\<close>

text \<open>None of these is code of the notebook; they name what the theorems speak about.\<close>

text \<open>A coin whose counters are both at least \<open>1\<close>.\<close>

definition well_formed :: "coin \<Rightarrow> bool" where
  "well_formed c \<longleftrightarrow> 1 \<le> alpha c \<and> 1 \<le> beta c"

text \<open>
  One draw of \<open>np.random.beta\<close> for each coin of a list, in order, each with the
  counters of its coin: the values drawn and the state the generator is left in.
\<close>

fun draw_each :: "'g random_source \<Rightarrow> coin list \<Rightarrow> 'g \<Rightarrow> error + real list \<times> 'g" where
  "draw_each rs [] g = Inr ([], g)"
| "draw_each rs (c # cs) g =
     (case np_beta rs (alpha c) (beta c) g of
        Inl e \<Rightarrow> Inl e
      | Inr (v, g') \<Rightarrow>
          (case draw_each rs cs g' of
             Inl e \<Rightarrow> Inl e
           | Inr (vs, g'') \<Rightarrow> Inr (v # vs, g'')))"

text \<open>
  The running maximum of the sampling loop on a list of values: from the maximum \<open>M\<close>
  and winner \<open>w\<close> so far, with \<open>k\<close> the position of the first value.
\<close>

fun scan_max :: "real \<Rightarrow> nat option \<Rightarrow> nat \<Rightarrow> real list \<Rightarrow> real \<times> nat option" where
  "scan_max M w k [] = (M, w)"
| "scan_max M w k (v # vs) =
     (if v > M then scan_max v (Some k) (Suc k) vs else scan_max M w (Suc k) vs)"

text \<open>The user stops the run at the pause after trial \<open>i\<close>.\<close>

definition stops :: "(nat \<Rightarrow> string) \<Rightarrow> nat \<Rightarrow> bool" where
  "stops reply i \<longleftrightarrow> i \<in> set pauses \<and> reply i = ''n''"

text \<open>
  Modelled from the spec: the posterior mean of an arm, \<open>alpha / (alpha + beta)\<close>, which
  the notebook never computes.
\<close>

definition posterior_mean :: "coin \<Rightarrow> real" where
  "posterior_mean c = real_of_int (alpha c) / real_of_int (alpha c + beta c)"

text \<open>
  Modelled from the spec: the ranking extractor, which the notebook does not have
  (\<open>simulate\<close> returns nothing and drops its coins). The spec asks for the arms sorted by
  descending posterior mean, ties broken by ascending arm id; the sort is stable, and
  an arm's id is its position in the pool.
\<close>

definition rank :: "coin list \<Rightarrow> (nat \<times> coin) list" where
  "rank cs = sort_key (\<lambda>(i, c). - posterior_mean c) (List.enumerate 0 cs)"

text \<open>
  \<open>maxcoin\<close>, when bound, refers to a coin of the pool (in the code it can only be bound
  to an element of \<open>coins\<close>).
\<close>

definition bound_in_range :: "'g frame \<Rightarrow> bool" where
  "bound_in_range s = (case maxcoin s of None \<Rightarrow> True | Some w \<Rightarrow> w < length (coins s))"

text \<open>
  The counters of every coin agree with the record of the trials: \<open>alpha\<close> is one more
  than the number of successes recorded for the coin, \<open>beta\<close> one more than the number
  of its failures.
\<close>

definition tallies :: "coin list \<Rightarrow> (nat \<times> bool) list \<Rightarrow> bool" where
  "tallies cs tr \<longleftrightarrow>
     (\<forall>j<length cs. alpha (cs ! j) = 1 + int (count_list tr (j, True))
                   \<and> beta (cs ! j) = 1 + int (count_list tr (j, False)))"

text \<open>The number of outcomes a coin has absorbed.\<close>

definition observed :: "coin \<Rightarrow> int" where
  "observed c = (alpha c - 1) + (beta c - 1)"

text \<open>What holds of the frame and the record of the trials between two trials.\<close>

definition run_inv :: "'g frame \<Rightarrow> (nat \<times> bool) list \<Rightarrow> bool" where
  "run_inv s tr \<longleftrightarrow>
     bound_in_range s \<and> (\<forall>c\<in>set (coins s). well_formed c) \<and> tallies (coins s) tr \<and>
     sum_list (map observed (coins s)) = int (length tr)"

text \<open>
  The number of trials that the loop over the indices \<open>js\<close> executes: all of them, or
  those up to and including the first at which the user stops the run.
\<close>

fun executed :: "(nat \<Rightarrow> string) \<Rightarrow> nat list \<Rightarrow> nat" where
  "executed reply [] = 0"
| "executed reply (i # js) = (if stops reply i then 1 else Suc (executed reply js))"

subsection \<open>A stubbed random source\<close>

text \<open>
  A generator that replays a list of values and then returns \<open>0\<close> for ever. Its
  \<open>beta\<close> refuses non-positive parameters and keeps its values in \<open>[0, 1]\<close>, as numpy does.
  It serves to run the model on concrete inputs.
\<close>

definition tape_draw :: "real list \<Rightarrow> real \<times> real list" where
  "tape_draw g = (case g of [] \<Rightarrow> (0, []) | x # xs \<Rightarrow> (x, xs))"

definition tape_source :: "real list random_source" where
  "tape_source =
     \<lparr>np_rand = tape_draw,
      np_beta = (\<lambda>a b g. if a \<le> 0 \<or> b \<le> 0 then Inl ValueError
                         else (case tape_draw g of (x, g') \<Rightarrow> Inr (min 1 (max 0 x), g')))\<rparr>"

text \<open>Three users: one who only presses return, one who always answers \<open>n\<close>, one who
  answers \<open>n\<close> at the pause after trial \<open>10\<close> and \<open>y\<close> elsewhere.\<close>

definition no_reply :: "nat \<Rightarrow> string" where
  "no_reply i = []"

definition always_n :: "nat \<Rightarrow> string" where
  "always_n i = ''n''"

definition late_n :: "nat \<Rightarrow> string" where
  "late_n i = (if i = 10 then ''n'' else ''y'')"

section \<open>The methods of a coin\<close>

lemma update_of_bool:
  "update c (of_bool b) = (if b then c\<lparr>alpha := alpha c + 1\<rparr> else c\<lparr>beta := beta c + 1\<rparr>)"
  by (simp add: update_def)

lemma well_formed_Coin: "well_formed (Coin q)"
  by (simp add: well_formed_def Coin_def)

lemma well_formed_update: "well_formed c \<Longrightarrow> well_formed (update c (of_bool b))"
  by (simp add: well_formed_def update_of_bool)

section \<open>The sampling loop\<close>

text \<open>
  The loop draws once for each coin and keeps the running maximum; nothing else of the
  frame changes.
\<close>

lemma sample_loop_eq:
  "sample_loop rs (List.enumerate k cs) s =
     (case draw_each rs cs (gen s) of
        Inl e \<Rightarrow> Inl e
      | Inr (vs, g') \<Rightarrow>
          Inr (s\<lparr>samples := samples s @ vs, gen := g',
                 maxsample := fst (scan_max (maxsample s) (maxcoin s) k vs),
                 maxcoin := snd (scan_max (maxsample s) (maxcoin s) k vs)\<rparr>))"
proof (induction cs arbitrary: k s)
  case Nil
  show ?case by simp
next
  case (Cons c cs)
  show ?case
    by (simp add: sample_def Cons.IH Let_def split: sum.splits prod.splits)
qed

text \<open>
  The running maximum: it bounds every value; if some value exceeds the starting
  maximum, the winner is the first position holding the largest value, and otherwise
  the winner and the maximum are the ones the loop started with.
\<close>

lemma scan_max_spec:
  "scan_max M w k vs = (M', w') \<Longrightarrow>
     M \<le> M' \<and> (\<forall>v\<in>set vs. v \<le> M') \<and>
     (if \<exists>v\<in>set vs. M < v
      then \<exists>i<length vs. w' = Some (k + i) \<and> vs ! i = M' \<and> (\<forall>j<i. vs ! j < M')
      else w' = w \<and> M' = M)"
proof (induction vs arbitrary: M w k)
  case Nil
  then show ?case by simp
next
  case (Cons v vs)
  show ?case
  proof (cases "M < v")
    case True
    with Cons.prems have r: "scan_max v (Some k) (Suc k) vs = (M', w')" by simp
    note ih = Cons.IH [OF r]
    show ?thesis
    proof (cases "\<exists>u\<in>set vs. v < u")
      case True
      with ih obtain i where i: "i < length vs" "w' = Some (Suc k + i)" "vs ! i = M'" "\<forall>j<i. vs ! j < M'"
        by auto
      from True ih have "v < M'" by auto
      with i have "Suc i < length (v # vs) \<and> w' = Some (k + Suc i) \<and> (v # vs) ! Suc i = M' \<and> (\<forall>j<Suc i. (v # vs) ! j < M')"
        by (auto simp: nth_Cons')
      with ih \<open>M < v\<close> \<open>v < M'\<close> show ?thesis by (auto intro!: exI[of _ "Suc i"])
    next
      case False
      with ih have "w' = Some k" "M' = v" by auto
      with ih \<open>M < v\<close> show ?thesis by (auto intro!: exI[of _ 0])
    qed
  next
    case False
    with Cons.prems have r: "scan_max M w (Suc k) vs = (M', w')" by simp
    note ih = Cons.IH [OF r]
    show ?thesis
    proof (cases "\<exists>u\<in>set vs. M < u")
      case True
      with ih obtain i where i: "i < length vs" "w' = Some (Suc k + i)" "vs ! i = M'" "\<forall>j<i. vs ! j < M'"
        by auto
      from True ih have "M < M'" by auto
      with False have "v < M'" by simp
      with i have "Suc i < length (v # vs) \<and> w' = Some (k + Suc i) \<and> (v # vs) ! Suc i = M' \<and> (\<forall>j<Suc i. (v # vs) ! j < M')"
        by (auto simp: nth_Cons')
      with ih True \<open>v < M'\<close> show ?thesis by (auto intro!: exI[of _ "Suc i"])
    next
      case F2: False
      with ih False show ?thesis by auto
    qed
  qed
qed

lemma draw_each_length: "draw_each rs cs g = Inr (vs, g') \<Longrightarrow> length vs = length cs"
  by (induction cs arbitrary: g vs) (auto split: sum.splits)

lemma draw_each_ok:
  "beta_contract rs \<Longrightarrow> \<forall>c\<in>set cs. well_formed c \<Longrightarrow>
     \<exists>vs g'. draw_each rs cs g = Inr (vs, g') \<and> length vs = length cs \<and> (\<forall>v\<in>set vs. 0 \<le> v \<and> v \<le> 1)"
proof (induction cs arbitrary: g)
  case Nil
  show ?case by simp
next
  case (Cons c cs)
  from Cons.prems have "0 < alpha c \<and> 0 < beta c" by (simp add: well_formed_def)
  with Cons.prems(1) obtain v g1 where v: "np_beta rs (alpha c) (beta c) g = Inr (v, g1)" "0 \<le> v" "v \<le> 1"
    unfolding beta_contract_def by blast
  from Cons.IH [of g1] Cons.prems obtain vs g2 where
    vs: "draw_each rs cs g1 = Inr (vs, g2)" "length vs = length cs" "\<forall>v\<in>set vs. 0 \<le> v \<and> v \<le> 1"
    by auto
  with v show ?case by simp
qed

section \<open>One trial\<close>

lemma trial_eq:
  "trial rs s =
     (case draw_each rs (coins s) (gen s) of
        Inl e \<Rightarrow> Inl e
      | Inr (vs, g1) \<Rightarrow>
          (case snd (scan_max (- 1) (maxcoin s) 0 vs) of
             None \<Rightarrow> Inl UnboundLocalError
           | Some m \<Rightarrow>
               (case toss rs (coins s ! m) g1 of
                  (x, g2) \<Rightarrow>
                    Inr (s\<lparr>coins := (coins s)[m := update (coins s ! m) (of_bool x)],
                            maxsample := fst (scan_max (- 1) (maxcoin s) 0 vs),
                            samples := vs, maxcoin := Some m, gen := g2\<rparr>,
                         (m, x)))))"
  by (simp add: trial_def sample_loop_eq split: sum.splits prod.splits option.splits)

text \<open>
  A trial that returns has tossed a coin of the pool and changed that coin alone, by
  \<open>update\<close> with the outcome of the toss.
\<close>

lemma trial_frame:
  assumes "trial rs s = Inr (s', (m, x))" and "bound_in_range s"
  shows "m < length (coins s) \<and> coins s' = (coins s)[m := update (coins s ! m) (of_bool x)]
         \<and> maxcoin s' = Some m"
proof -
  from assms(1) obtain vs g1 where d: "draw_each rs (coins s) (gen s) = Inr (vs, g1)"
    by (auto simp: trial_eq split: sum.splits)
  obtain M' w' where sc: "scan_max (- 1) (maxcoin s) 0 vs = (M', w')" by (cases "scan_max (- 1) (maxcoin s) 0 vs")
  from assms(1) d sc have w': "w' = Some m"
    by (auto simp: trial_eq split: option.splits prod.splits)
  from assms(1) d sc w' have c: "coins s' = (coins s)[m := update (coins s ! m) (of_bool x)]" "maxcoin s' = Some m"
    by (auto simp: trial_eq split: option.splits prod.splits)
  have "length vs = length (coins s)" using d by (rule draw_each_length)
  with scan_max_spec [OF sc] w' assms(2) have "m < length (coins s)"
    by (auto simp: bound_in_range_def split: if_splits)
  with c show ?thesis by simp
qed

text \<open>
  On a pool that is not empty and whose coins are well formed, with a generator that
  keeps numpy's contract, a trial returns: the winner is the first position holding the
  largest of the values drawn.
\<close>

lemma trial_ok:
  assumes "beta_contract rs" and "coins s \<noteq> []" and "\<forall>c\<in>set (coins s). well_formed c"
  shows "\<exists>vs g1 m. draw_each rs (coins s) (gen s) = Inr (vs, g1) \<and> length vs = length (coins s) \<and>
           m < length vs \<and> (\<forall>j<length vs. vs ! j \<le> vs ! m) \<and> (\<forall>j<m. vs ! j < vs ! m) \<and>
           trial rs s =
             Inr (s\<lparr>coins := (coins s)[m := update (coins s ! m) (of_bool (fst (toss rs (coins s ! m) g1)))],
                    maxsample := vs ! m, samples := vs, maxcoin := Some m,
                    gen := snd (toss rs (coins s ! m) g1)\<rparr>,
                  (m, fst (toss rs (coins s ! m) g1)))"
proof -
  from draw_each_ok [OF assms(1,3)] obtain vs g1 where
    d: "draw_each rs (coins s) (gen s) = Inr (vs, g1)" "length vs = length (coins s)"
       "\<forall>v\<in>set vs. 0 \<le> v \<and> v \<le> 1" by blast
  obtain M' w' where sc: "scan_max (- 1) (maxcoin s) 0 vs = (M', w')" by (cases "scan_max (- 1) (maxcoin s) 0 vs")
  from d(2) assms(2) have "vs \<noteq> []" by auto
  then obtain v where "v \<in> set vs" by (cases vs) auto
  with d(3) have ex: "\<exists>v\<in>set vs. - 1 < v" by force
  with scan_max_spec [OF sc] obtain m where
    m: "m < length vs" "w' = Some m" "vs ! m = M'" "\<forall>j<m. vs ! j < M'" "\<forall>v\<in>set vs. v \<le> M'"
    by auto
  have "trial rs s =
             Inr (s\<lparr>coins := (coins s)[m := update (coins s ! m) (of_bool (fst (toss rs (coins s ! m) g1)))],
                    maxsample := vs ! m, samples := vs, maxcoin := Some m,
                    gen := snd (toss rs (coins s ! m) g1)\<rparr>,
                  (m, fst (toss rs (coins s ! m) g1)))"
    using d(1) sc m(2,3) by (simp add: trial_eq split: prod.splits)
  moreover from m have "\<forall>j<length vs. vs ! j \<le> vs ! m" by simp
  ultimately show ?thesis using d m by blast
qed

lemma sample_loop_coins: "sample_loop rs jcs s = Inr s1 \<Longrightarrow> coins s1 = coins s"
proof (induction jcs arbitrary: s)
  case Nil
  then show ?case by simp
next
  case (Cons jc jcs)
  obtain j c where jc: "jc = (j, c)" by (cases jc)
  from Cons.prems jc show ?case
    by (auto simp: Let_def dest!: Cons.IH split: sum.splits if_splits)
qed

section \<open>The loop over the trials\<close>

lemma trials_invariant:
  assumes step: "\<And>s tr s' r. I s tr \<Longrightarrow> trial rs s = Inr (s', r) \<Longrightarrow> I s' (tr @ [r])"
  shows "I s tr \<Longrightarrow> trials rs reply js (s, tr) = Inr (s', tr') \<Longrightarrow> I s' tr'"
proof (induction js arbitrary: s tr)
  case Nil
  then show ?case by simp
next
  case (Cons i js)
  from Cons.prems(2) obtain s1 r where t: "trial rs s = Inr (s1, r)"
    by (auto split: sum.splits)
  from step [OF Cons.prems(1) t] have I1: "I s1 (tr @ [r])" .
  show ?case
  proof (cases "i \<in> set pauses \<and> reply i = ''n''")
    case True
    with Cons.prems(2) t have "s' = s1" "tr' = tr @ [r]" by auto
    with I1 show ?thesis by simp
  next
    case False
    with Cons.prems(2) t have "trials rs reply js (s1, tr @ [r]) = Inr (s', tr')" by auto
    from Cons.IH [OF I1 this] show ?thesis .
  qed
qed

lemma sum_list_map_update:
  fixes f :: "'a \<Rightarrow> int"
  shows "k < length xs \<Longrightarrow> sum_list (map f (xs[k := y])) = sum_list (map f xs) - f (xs ! k) + f y"
  by (induction xs arbitrary: k) (auto split: nat.splits)

lemma observed_update: "observed (update c (of_bool b)) = observed c + 1"
  by (simp add: observed_def update_of_bool)

lemma run_inv_step:
  assumes "run_inv s tr" and "trial rs s = Inr (s', r)"
  shows "run_inv s' (tr @ [r]) \<and> length (coins s') = length (coins s) \<and> map p (coins s') = map p (coins s)"
proof -
  obtain m x where r: "r = (m, x)" by (cases r)
  from assms(1) have b: "bound_in_range s" by (simp add: run_inv_def)
  from trial_frame [OF assms(2)[unfolded r] b] have
    m: "m < length (coins s)" and c: "coins s' = (coins s)[m := update (coins s ! m) (of_bool x)]"
    and w: "maxcoin s' = Some m" by simp_all
  from m c w have 1: "bound_in_range s'" by (simp add: bound_in_range_def)
  have 2: "\<forall>c\<in>set (coins s'). well_formed c"
  proof
    fix d assume "d \<in> set (coins s')"
    with c have "d \<in> insert (update (coins s ! m) (of_bool x)) (set (coins s))"
      using set_update_subset_insert by fastforce
    moreover from assms(1) m have "well_formed (coins s ! m)" by (simp add: run_inv_def)
    ultimately show "well_formed d" using assms(1) by (auto simp: run_inv_def well_formed_update)
  qed
  from assms(1) have t: "tallies (coins s) tr" by (simp add: run_inv_def)
  have 3: "tallies (coins s') (tr @ [r])"
    unfolding tallies_def
  proof (intro allI impI)
    fix j assume "j < length (coins s')"
    with c have j: "j < length (coins s)" by simp
    with t have tj: "alpha (coins s ! j) = 1 + int (count_list tr (j, True))"
       "beta (coins s ! j) = 1 + int (count_list tr (j, False))" by (simp_all add: tallies_def)
    show "alpha (coins s' ! j) = 1 + int (count_list (tr @ [r]) (j, True)) \<and>
          beta (coins s' ! j) = 1 + int (count_list (tr @ [r]) (j, False))"
      using tj j m by (cases "j = m") (auto simp: c r update_of_bool)
  qed
  from assms(1) have "sum_list (map observed (coins s)) = int (length tr)" by (simp add: run_inv_def)
  with m have 4: "sum_list (map observed (coins s')) = int (length (tr @ [r]))"
    by (simp add: c sum_list_map_update observed_update)
  have 5: "map p (coins s') = map p (coins s)"
    using m by (simp add: c map_update update_of_bool list_update_same_conv)
  from 1 2 3 4 5 c show ?thesis by (simp add: run_inv_def)
qed

lemma observed_Coin: "observed (Coin q) = 0"
  by (simp add: observed_def Coin_def)

lemma run_inv_start: "run_inv (start ps g) []"
proof -
  have "sum_list (map observed (map Coin ps)) = 0"
    by (induction ps) (simp_all add: observed_Coin)
  moreover have "tallies (map Coin ps) []"
    by (simp add: tallies_def Coin_def)
  ultimately show ?thesis
    by (simp add: run_inv_def start_def bound_in_range_def well_formed_Coin)
qed

lemma trials_run_inv:
  "run_inv s tr \<Longrightarrow> trials rs reply js (s, tr) = Inr (s', tr') \<Longrightarrow> run_inv s' tr'"
  using trials_invariant [where I = run_inv and rs = rs] run_inv_step by blast

lemma trials_pool_shape:
  "run_inv s tr \<Longrightarrow> trials rs reply js (s, tr) = Inr (s', tr') \<Longrightarrow>
     run_inv s' tr' \<and> map p (coins s') = map p (coins s)"
  using trials_invariant [where I = "\<lambda>s1 tr1. run_inv s1 tr1 \<and> map p (coins s1) = map p (coins s)" and rs = rs]
    run_inv_step by metis

lemma trials_total:
  assumes "beta_contract rs"
  shows "run_inv s tr \<Longrightarrow> coins s \<noteq> [] \<Longrightarrow>
     \<exists>s' tr'. trials rs reply js (s, tr) = Inr (s', tr') \<and> length tr' = length tr + executed reply js"
proof (induction js arbitrary: s tr)
  case Nil
  then show ?case by simp
next
  case (Cons i js)
  from Cons.prems have "\<forall>c\<in>set (coins s). well_formed c" by (simp add: run_inv_def)
  from trial_ok [OF assms Cons.prems(2) this] obtain s1 r where t: "trial rs s = Inr (s1, r)"
    by blast
  from run_inv_step [OF Cons.prems(1) t] Cons.prems(2)
  have inv1: "run_inv s1 (tr @ [r])" and ne1: "coins s1 \<noteq> []" by auto
  show ?case
  proof (cases "stops reply i")
    case True
    with t show ?thesis by (simp add: stops_def)
  next
    case False
    from Cons.IH [OF inv1 ne1] obtain s' tr' where
      "trials rs reply js (s1, tr @ [r]) = Inr (s', tr')" "length tr' = length (tr @ [r]) + executed reply js"
      by blast
    with False t show ?thesis by (auto simp: stops_def)
  qed
qed

lemma executed_upt_from:
  "executed reply [k..<N] =
     (case List.find (stops reply) [k..<N] of None \<Rightarrow> N - k | Some i \<Rightarrow> Suc i - k)"
proof (induction "N - k" arbitrary: k)
  case 0
  then show ?case by simp
next
  case (Suc d)
  then have lt: "k < N" and d: "d = N - Suc k" by simp_all
  from lt have u: "[k..<N] = k # [Suc k..<N]" by (rule upt_conv_Cons)
  show ?case
  proof (cases "stops reply k")
    case True
    then show ?thesis by (simp add: u)
  next
    case False
    have "\<And>i. List.find (stops reply) [Suc k..<N] = Some i \<Longrightarrow> Suc k \<le> i"
      by (auto simp: find_Some_iff)
    with False Suc.hyps(1) [OF d] lt show ?thesis
      by (auto simp: u split: option.splits)
  qed
qed

lemma executed_upt:
  "executed reply [0..<N] =
     (case List.find (stops reply) [0..<N] of None \<Rightarrow> N | Some i \<Rightarrow> Suc i)"
  using executed_upt_from [of reply 0 N] by (simp split: option.splits)

lemma count_list_outcomes:
  "count_list tr (j, True) + count_list tr (j, False) = count_list (map fst tr) j"
  by (induction tr) auto

lemma trials_same_replies:
  "\<forall>i\<in>set js. i \<in> set pauses \<longrightarrow> (reply i = ''n'') = (reply' i = ''n'') \<Longrightarrow>
     trials rs reply js st = trials rs reply' js st"
proof (induction js arbitrary: st)
  case Nil
  show ?case by simp
next
  case (Cons i js)
  obtain s tr where st: "st = (s, tr)" by (cases st)
  from Cons.prems have "\<forall>i\<in>set js. i \<in> set pauses \<longrightarrow> (reply i = ''n'') = (reply' i = ''n'')" by simp
  from Cons.IH [OF this] Cons.prems show ?case
    by (auto simp: st split: sum.splits)
qed

lemma trial_empty_pool:
  "coins s = [] \<Longrightarrow> maxcoin s = None \<Longrightarrow> trial rs s = Inl UnboundLocalError"
  by (simp add: trial_eq)

section \<open>The ranking of the priors\<close>

lemma sort_key_all_equal:
  "\<forall>x\<in>set xs. f x = k \<Longrightarrow> sort_key f xs = xs"
  by (induction xs) (auto simp: insort_is_Cons)

lemma posterior_mean_Coin: "posterior_mean (Coin q) = 1/2"
  by (simp add: posterior_mean_def Coin_def)

lemma rank_priors: "rank (map Coin ps) = List.enumerate 0 (map Coin ps)"
  unfolding rank_def
  by (rule sort_key_all_equal [where k = "- (1/2)"]) (auto simp: enumerate_eq_zip posterior_mean_Coin dest!: set_zip_rightD)

section \<open>Running the model on concrete inputs\<close>

lemmas run_defs = simulate_def start_def trial_def tape_source_def tape_draw_def no_reply_def
  always_n_def Coin_def toss_def sample_def update_def pauses_def enumerate_eq_zip

lemma beta_contract_tape: "beta_contract tape_source"
  by (auto simp: beta_contract_def tape_source_def tape_draw_def split: list.splits)

section \<open>The posterior update\<close>

text \<open>
  C2. For every coin and every boolean outcome, \<open>update\<close> with a success adds exactly
  \<open>1\<close> to \<open>alpha\<close> and leaves \<open>beta\<close> as it is, and with a failure adds exactly \<open>1\<close> to
  \<open>beta\<close> and leaves \<open>alpha\<close> as it is; \<open>p\<close> is untouched, and the result of a well-formed
  coin is a well-formed coin (\<open>update\<close> has no failing branch). No other operation changes
  the counters: the sampling loop returns the coins it was given, and a trial changes the
  pool at one position only, by one \<open>update\<close> with the outcome of the toss.
\<close>

theorem update_only_change:
  "alpha (update c (of_bool b)) = alpha c + of_bool b
   \<and> beta (update c (of_bool b)) = beta c + of_bool (\<not> b)
   \<and> p (update c (of_bool b)) = p c
   \<and> (well_formed c \<longrightarrow> well_formed (update c (of_bool b)))
   \<and> (sample_loop rs jcs s = Inr s1 \<longrightarrow> coins s1 = coins s)
   \<and> (bound_in_range s \<and> trial rs s = Inr (s', (m, x)) \<longrightarrow>
        m < length (coins s) \<and> coins s' = (coins s)[m := update (coins s ! m) (of_bool x)])"
proof -
  have 1: "alpha (update c (of_bool b)) = alpha c + of_bool b"
    by (simp add: update_of_bool)
  have 2: "beta (update c (of_bool b)) = beta c + of_bool (\<not> b)"
    by (simp add: update_of_bool)
  have 3: "p (update c (of_bool b)) = p c"
    by (simp add: update_of_bool)
  have 4: "well_formed c \<longrightarrow> well_formed (update c (of_bool b))"
    by (simp add: well_formed_update)
  have 5: "sample_loop rs jcs s = Inr s1 \<longrightarrow> coins s1 = coins s"
    by (simp add: sample_loop_coins)
  have 6: "bound_in_range s \<and> trial rs s = Inr (s', (m, x)) \<longrightarrow>
        m < length (coins s) \<and> coins s' = (coins s)[m := update (coins s ! m) (of_bool x)]"
    using trial_frame [of rs s s' m x] by simp
  from 1 2 3 4 5 6 show ?thesis by blast
qed

theorem update_only_change_witness:
  "well_formed (Coin (1/2)) \<and> well_formed (update (Coin (1/2)) (of_bool True))
   \<and> alpha (update (Coin (1/2)) (of_bool True)) = 2
   \<and> beta (update (Coin (1/2)) (of_bool True)) = 1
   \<and> sample_loop tape_source (List.enumerate 0 (map Coin [1/2, 3/4]))
        (start [1/2, 3/4] [1/4, 1/4, 1/8]) =
      Inr \<lparr>coins = map Coin [1/2, 3/4], maxsample = 1/4, samples = [1/4, 1/4],
           maxcoin = Some 0, gen = [1/8]\<rparr>
   \<and> bound_in_range (start [1/2, 3/4] [1/4, 1/4, 1/8])
   \<and> trial tape_source (start [1/2, 3/4] [1/4, 1/4, 1/8]) =
       Inr (\<lparr>coins = [\<lparr>p = 1/2, alpha = 2, beta = 1\<rparr>, Coin (3/4)], maxsample = 1/4,
             samples = [1/4, 1/4], maxcoin = Some 0, gen = []\<rparr>, (0, True))
   \<and> [\<lparr>p = 1/2, alpha = 2, beta = 1\<rparr>, Coin (3/4)] =
       (coins (start [1/2, 3/4] [1/4, 1/4, 1/8]))
         [0 := update (coins (start [1/2, 3/4] [1/4, 1/4, 1/8]) ! 0) (of_bool True)]"
  using update_only_change [of "Coin (1/2)" True tape_source
      "List.enumerate 0 (map Coin [1/2, 3/4])" "start [1/2, 3/4] [1/4, 1/4, 1/8]"
      "\<lparr>coins = map Coin [1/2, 3/4], maxsample = 1/4, samples = [1/4, 1/4],
           maxcoin = Some 0, gen = [1/8]\<rparr>"
      "\<lparr>coins = [\<lparr>p = 1/2, alpha = 2, beta = 1\<rparr>, Coin (3/4)], maxsample = 1/4,
             samples = [1/4, 1/4], maxcoin = Some 0, gen = []\<rparr>" 0 True]
  by (simp add: run_defs bound_in_range_def well_formed_def)

section \<open>The selection policy\<close>

text \<open>
  C1. On a pool that is not empty (its coins well formed, the generator keeping numpy's
  contract), the sampling loop of a trial draws exactly one value for each coin, in pool
  order, each from \<open>np.random.beta\<close> with the counters of its coin (\<open>draw_each\<close>), and
  binds \<open>maxcoin\<close> to a coin whose value is the largest; among coins tied at the largest
  value it is the one of lowest position, every earlier value being strictly smaller. That
  coin is the one the trial tosses.
\<close>

theorem selection_first_maximum:
  assumes "beta_contract rs" and "coins s \<noteq> []" and "\<forall>c\<in>set (coins s). well_formed c"
  shows "\<exists>vs g1 m.
     draw_each rs (coins s) (gen s) = Inr (vs, g1) \<and> length vs = length (coins s) \<and>
     sample_loop rs (List.enumerate 0 (coins s)) (s\<lparr>maxsample := - 1, samples := []\<rparr>) =
       Inr (s\<lparr>maxsample := vs ! m, samples := vs, maxcoin := Some m, gen := g1\<rparr>) \<and>
     m < length (coins s) \<and> (\<forall>j<length vs. vs ! j \<le> vs ! m) \<and> (\<forall>j<m. vs ! j < vs ! m) \<and>
     (\<exists>s' x. trial rs s = Inr (s', (m, x)))"
proof -
  from draw_each_ok [OF assms(1,3)] obtain vs g1 where
    d: "draw_each rs (coins s) (gen s) = Inr (vs, g1)" "length vs = length (coins s)"
       "\<forall>v\<in>set vs. 0 \<le> v \<and> v \<le> 1" by blast
  obtain M' w' where sc: "scan_max (- 1) (maxcoin s) 0 vs = (M', w')"
    by (cases "scan_max (- 1) (maxcoin s) 0 vs")
  from d(2) assms(2) obtain v where "v \<in> set vs" by (cases vs) auto
  with d(3) have "\<exists>v\<in>set vs. - 1 < v" by force
  with scan_max_spec [OF sc] obtain m where
    m: "m < length vs" "w' = Some m" "vs ! m = M'" "\<forall>j<m. vs ! j < M'" "\<forall>v\<in>set vs. v \<le> M'"
    by auto
  have sel: "sample_loop rs (List.enumerate 0 (coins s)) (s\<lparr>maxsample := - 1, samples := []\<rparr>) =
       Inr (s\<lparr>maxsample := vs ! m, samples := vs, maxcoin := Some m, gen := g1\<rparr>)"
    using d(1) sc m(2,3) by (simp add: sample_loop_eq)
  have tr: "\<exists>s' x. trial rs s = Inr (s', (m, x))"
    using d(1) sc m(2) by (simp add: trial_eq split: prod.splits)
  from m have "\<forall>j<length vs. vs ! j \<le> vs ! m" by simp
  with d(1,2) sel tr m show ?thesis by (metis (no_types, lifting))
qed

theorem selection_first_maximum_witness:
  "beta_contract tape_source \<and> list_all well_formed (coins (start [1/2, 3/4, 1/3] [1/4, 1/2, 1/2, 1/8]))
   \<and> draw_each tape_source (coins (start [1/2, 3/4, 1/3] [1/4, 1/2, 1/2, 1/8])) [1/4, 1/2, 1/2, 1/8]
       = Inr ([1/4, 1/2, 1/2], [1/8])
   \<and> sample_loop tape_source (List.enumerate 0 (coins (start [1/2, 3/4, 1/3] [1/4, 1/2, 1/2, 1/8])))
        (start [1/2, 3/4, 1/3] [1/4, 1/2, 1/2, 1/8]) =
       Inr \<lparr>coins = map Coin [1/2, 3/4, 1/3], maxsample = 1/2, samples = [1/4, 1/2, 1/2],
            maxcoin = Some 1, gen = [1/8]\<rparr>
   \<and> (\<exists>vs g1 m. draw_each tape_source (coins (start [1/2, 3/4, 1/3] [1/4, 1/2, 1/2, 1/8]))
                    (gen (start [1/2, 3/4, 1/3] [1/4, 1/2, 1/2, 1/8])) = Inr (vs, g1)
        \<and> m < 3 \<and> (\<exists>s' x. trial tape_source (start [1/2, 3/4, 1/3] [1/4, 1/2, 1/2, 1/8]) = Inr (s', (m, x))))"
  using selection_first_maximum [OF beta_contract_tape, of "start [1/2, 3/4, 1/3] [1/4, 1/2, 1/2, 1/8]"]
    beta_contract_tape
  by (simp add: run_defs well_formed_def)

section \<open>Counters and the record of the trials\<close>

text \<open>
  C3. Whenever a run returns, after however many trials it executed, every coin that
  the record shows with \<open>k\<close> successes and \<open>m\<close> failures has \<open>alpha = 1 + k\<close> and
  \<open>beta = 1 + m\<close>, and \<open>k + m\<close> is the number of trials in which the coin was selected;
  the sum over the coins of \<open>(alpha - 1) + (beta - 1)\<close> is the number of trials executed.
\<close>

theorem counters_match_record:
  assumes "simulate rs reply ps n g = Inr (s, tr)"
  shows "length (coins s) = length ps \<and>
     (\<forall>j<length ps.
        alpha (coins s ! j) = 1 + int (count_list tr (j, True)) \<and>
        beta (coins s ! j) = 1 + int (count_list tr (j, False)) \<and>
        count_list tr (j, True) + count_list tr (j, False) = count_list (map fst tr) j) \<and>
     (\<Sum>c\<leftarrow>coins s. (alpha c - 1) + (beta c - 1)) = int (length tr)"
proof -
  from assms have t: "trials rs reply [0..<nat n] (start ps g, []) = Inr (s, tr)"
    by (simp add: simulate_def)
  from trials_pool_shape [OF run_inv_start t]
  have inv: "run_inv s tr" and sh: "map p (coins s) = map p (coins (start ps g))" by simp_all
  from sh have "length (map p (coins s)) = length (map p (coins (start ps g)))" by simp
  then have len: "length (coins s) = length ps" by (simp add: start_def)
  from inv len have "\<forall>j<length ps. alpha (coins s ! j) = 1 + int (count_list tr (j, True)) \<and>
        beta (coins s ! j) = 1 + int (count_list tr (j, False))"
    by (simp add: run_inv_def tallies_def)
  moreover from inv have "(\<Sum>c\<leftarrow>coins s. (alpha c - 1) + (beta c - 1)) = int (length tr)"
    by (simp add: run_inv_def observed_def [abs_def])
  ultimately show ?thesis using len by (simp add: count_list_outcomes)
qed

theorem counters_match_record_witness:
  "simulate tape_source no_reply [1/2, 3/4] 3 [1/4, 1/4, 1/2, 1/8, 1, 0, 1, 1] =
     Inr (\<lparr>coins = [\<lparr>p = 1/2, alpha = 2, beta = 2\<rparr>, \<lparr>p = 3/4, alpha = 2, beta = 1\<rparr>],
           maxsample = 1, samples = [1, 1], maxcoin = Some 0, gen = []\<rparr>,
          [(0, False), (1, True), (0, True)])
   \<and> (2::int) = 1 + int (count_list [(0::nat, False), (1, True), (0, True)] (0, True))
   \<and> (2::int) = 1 + int (count_list [(0::nat, False), (1, True), (0, True)] (0, False))
   \<and> (2::int) = 1 + int (count_list [(0::nat, False), (1, True), (0, True)] (1, True))
   \<and> (1::int) = 1 + int (count_list [(0::nat, False), (1, True), (0, True)] (1, False))
   \<and> (\<Sum>c\<leftarrow>[\<lparr>p = 1/2, alpha = 2, beta = 2\<rparr>, \<lparr>p = 3/4, alpha = 2, beta = 1\<rparr>].
        (alpha c - 1) + (beta c - 1)) = int (length [(0::nat, False), (1, True), (0, True)])"
proof -
  have run: "simulate tape_source no_reply [1/2, 3/4] 3 [1/4, 1/4, 1/2, 1/8, 1, 0, 1, 1] =
     Inr (\<lparr>coins = [\<lparr>p = 1/2, alpha = 2, beta = 2\<rparr>, \<lparr>p = 3/4, alpha = 2, beta = 1\<rparr>],
           maxsample = 1, samples = [1, 1], maxcoin = Some 0, gen = []\<rparr>,
          [(0, False), (1, True), (0, True)])"
    by (simp add: run_defs upt_rec)
  from counters_match_record [OF run] run show ?thesis
    by simp
qed

section \<open>Whole runs\<close>

lemma simulate_total:
  assumes "beta_contract rs" and "ps \<noteq> [] \<or> n \<le> 0"
  shows "\<exists>s tr. simulate rs reply ps n g = Inr (s, tr) \<and>
           length tr = (case List.find (stops reply) [0..<nat n] of None \<Rightarrow> nat n | Some i \<Rightarrow> Suc i)"
proof (cases "ps = []")
  case True
  with assms(2) have "nat n = 0" by simp
  then show ?thesis by (simp add: simulate_def)
next
  case False
  then have "coins (start ps g) \<noteq> []" by (simp add: start_def)
  from trials_total [OF assms(1) run_inv_start this, of reply "[0..<nat n]"]
  show ?thesis by (simp add: simulate_def executed_upt)
qed

lemma simulate_no_trials: "n \<le> 0 \<Longrightarrow> simulate rs reply ps n g = Inr (start ps g, [])"
  by (simp add: simulate_def)

lemma simulate_empty_pool: "0 < n \<Longrightarrow> simulate rs reply [] n g = Inl UnboundLocalError"
proof -
  assume "0 < n"
  then have "[0..<nat n] = 0 # [Suc 0..<nat n]" by (simp add: upt_conv_Cons)
  moreover have "trial rs (start [] g) = Inl UnboundLocalError"
    by (rule trial_empty_pool) (simp_all add: start_def)
  ultimately show ?thesis by (simp add: simulate_def)
qed

section \<open>Configurations are not validated\<close>

text \<open>
  C4, as the code has it. The constructor stores its argument and \<open>simulate\<close> checks
  nothing. With a generator that keeps numpy's contract: a run over a list of
  probabilities that is not empty returns, whatever the values (inside \<open>[0, 1]\<close> or
  not) and whatever the trial count; a trial count of zero or below runs no trial and
  returns the coins at their priors; the one failure is the empty list with a positive
  trial count, which raises \<open>UnboundLocalError\<close> in the first trial.
\<close>

theorem no_configuration_error:
  assumes "beta_contract rs"
  shows "(ps \<noteq> [] \<longrightarrow> (\<exists>s tr. simulate rs reply ps n g = Inr (s, tr)))
       \<and> (n \<le> 0 \<longrightarrow> simulate rs reply ps n g = Inr (start ps g, []))
       \<and> (ps = [] \<and> 0 < n \<longrightarrow> simulate rs reply ps n g = Inl UnboundLocalError)"
proof -
  have "ps \<noteq> [] \<longrightarrow> (\<exists>s tr. simulate rs reply ps n g = Inr (s, tr))"
    using simulate_total [OF assms, of ps n reply g] by blast
  moreover have "n \<le> 0 \<longrightarrow> simulate rs reply ps n g = Inr (start ps g, [])"
    by (simp add: simulate_no_trials)
  moreover have "ps = [] \<and> 0 < n \<longrightarrow> simulate rs reply ps n g = Inl UnboundLocalError"
    by (simp add: simulate_empty_pool)
  ultimately show ?thesis by blast
qed

theorem no_configuration_error_witness:
  "beta_contract tape_source
   \<and> (\<exists>s tr. simulate tape_source no_reply [3/2, - 1] 2 [] = Inr (s, tr))
   \<and> simulate tape_source no_reply [3/2, - 1] (- 4) [] = Inr (start [3/2, - 1] [], [])
   \<and> simulate tape_source no_reply [] 2 [] = Inl UnboundLocalError"
  using no_configuration_error [OF beta_contract_tape, of "[3/2, - 1]" no_reply 2 "[]"]
    no_configuration_error [OF beta_contract_tape, of "[3/2, - 1]" no_reply "- 4" "[]"]
    no_configuration_error [OF beta_contract_tape, of "[]" no_reply 2 "[]"]
    beta_contract_tape
  by simp

text \<open>
  C4 as stated fails: a probability of \<open>3/2\<close> is accepted and its trial runs, a trial
  count of \<open>- 1\<close> is accepted and runs no trial, and an empty list of probabilities is
  accepted when no trial is asked for.
\<close>

theorem invalid_configuration_runs_counterexample:
  "simulate tape_source no_reply [3/2] 1 [] =
     Inr (\<lparr>coins = [\<lparr>p = 3/2, alpha = 2, beta = 1\<rparr>], maxsample = 0, samples = [0],
           maxcoin = Some 0, gen = []\<rparr>, [(0, True)])
   \<and> simulate tape_source no_reply [1/2] (- 1) [] = Inr (start [1/2] [], [])
   \<and> simulate tape_source no_reply [] 0 [] = Inr (start [] [], [])"
  by (simp add: run_defs upt_rec)

section \<open>The number of trials\<close>

text \<open>
  C5, as the code has it. On a pool that is not empty (or with a trial count of zero or
  below), with a generator that keeps numpy's contract, the run returns; it has
  executed \<open>n\<close> trials (none for \<open>n \<le> 0\<close>) unless the user answers \<open>n\<close> at a pause
  index below \<open>n\<close>, in which case it has executed the trials up to and including the
  first such index \<open>i\<close>, that is \<open>i + 1\<close> of them.
\<close>

theorem trial_count_until_stop:
  assumes "beta_contract rs" and "ps \<noteq> [] \<or> n \<le> 0"
  shows "\<exists>s tr. simulate rs reply ps n g = Inr (s, tr) \<and>
           length tr = (case List.find (stops reply) [0..<nat n] of None \<Rightarrow> nat n | Some i \<Rightarrow> Suc i)"
  using assms by (rule simulate_total)

theorem trial_count_until_stop_witness:
  "beta_contract tape_source
   \<and> simulate tape_source always_n [1/2] 7 [] =
       Inr (\<lparr>coins = [\<lparr>p = 1/2, alpha = 7, beta = 1\<rparr>], maxsample = 0, samples = [0],
             maxcoin = Some 0, gen = []\<rparr>,
            [(0, True), (0, True), (0, True), (0, True), (0, True), (0, True)])
   \<and> List.find (stops always_n) [0..<nat 7] = Some 5
   \<and> (\<exists>s tr. simulate tape_source always_n [1/2] 7 [] = Inr (s, tr) \<and> length tr = Suc 5)"
proof -
  have f: "List.find (stops always_n) [0..<nat 7] = Some 5"
    by (simp add: stops_def always_n_def pauses_def upt_rec)
  have r: "simulate tape_source always_n [1/2] 7 [] =
       Inr (\<lparr>coins = [\<lparr>p = 1/2, alpha = 7, beta = 1\<rparr>], maxsample = 0, samples = [0],
             maxcoin = Some 0, gen = []\<rparr>,
            [(0, True), (0, True), (0, True), (0, True), (0, True), (0, True)])"
    by (simp add: run_defs upt_rec)
  from trial_count_until_stop [OF beta_contract_tape, of "[1/2]" 7 always_n "[]"] f
  have "\<exists>s tr. simulate tape_source always_n [1/2] 7 [] = Inr (s, tr) \<and> length tr = Suc 5"
    by simp
  with f r beta_contract_tape show ?thesis by simp
qed

text \<open>
  C5 as stated fails: asked for \<open>7\<close> trials, the run executes \<open>6\<close> when the user
  answers \<open>n\<close> at the pause after trial \<open>5\<close>.
\<close>

theorem run_stops_at_pause_counterexample:
  "simulate tape_source always_n [1/2] 7 [] =
       Inr (\<lparr>coins = [\<lparr>p = 1/2, alpha = 7, beta = 1\<rparr>], maxsample = 0, samples = [0],
             maxcoin = Some 0, gen = []\<rparr>,
            [(0, True), (0, True), (0, True), (0, True), (0, True), (0, True)])
   \<and> length [(0::nat, True), (0, True), (0, True), (0, True), (0, True), (0, True)] \<noteq> nat 7"
  by (simp add: run_defs upt_rec)

section \<open>Two runs\<close>

text \<open>
  C6, as the code has it. The code takes no seed and never seeds the generator; what a
  seed would fix is the state \<open>g\<close> of the generator on entry. Two runs on the same list
  of probabilities, the same trial count and the same generator state, in which the
  user gives the same answer (\<open>n\<close> or not) at every pause index below the trial count,
  return the same result: the same record of selected coins and outcomes, and the same
  final counters.
\<close>

theorem same_replies_same_run:
  assumes "\<forall>i\<in>set pauses. i < nat n \<longrightarrow> (reply i = ''n'') = (reply' i = ''n'')"
  shows "simulate rs reply ps n g = simulate rs reply' ps n g"
proof -
  from assms have "\<forall>i\<in>set [0..<nat n]. i \<in> set pauses \<longrightarrow> (reply i = ''n'') = (reply' i = ''n'')"
    by simp
  then show ?thesis unfolding simulate_def by (rule trials_same_replies)
qed

theorem same_replies_same_run_witness:
  "simulate tape_source no_reply [1/2] 7 [] = simulate tape_source late_n [1/2] 7 []"
  using same_replies_same_run [of 7 no_reply late_n tape_source "[1/2]" "[]"]
  by (simp add: pauses_def no_reply_def late_n_def)

text \<open>
  C6 as stated fails: with the same probabilities, the same trial count and the same
  generator state, a run in which the user answers \<open>n\<close> at the first pause selects six
  coins and a run in which the user never does selects seven.
\<close>

theorem replies_change_run_counterexample:
  "simulate tape_source no_reply [1/2] 7 [] =
     Inr (\<lparr>coins = [\<lparr>p = 1/2, alpha = 8, beta = 1\<rparr>], maxsample = 0, samples = [0],
           maxcoin = Some 0, gen = []\<rparr>,
          [(0, True), (0, True), (0, True), (0, True), (0, True), (0, True), (0, True)])
   \<and> simulate tape_source always_n [1/2] 7 [] =
     Inr (\<lparr>coins = [\<lparr>p = 1/2, alpha = 7, beta = 1\<rparr>], maxsample = 0, samples = [0],
           maxcoin = Some 0, gen = []\<rparr>,
          [(0, True), (0, True), (0, True), (0, True), (0, True), (0, True)])
   \<and> simulate tape_source no_reply [1/2] 7 [] \<noteq> simulate tape_source always_n [1/2] 7 []"
  by (simp add: run_defs upt_rec)

section \<open>The counters never fall below one\<close>

lemma trial_well_formed:
  assumes "\<forall>c\<in>set (coins s). well_formed c" and "trial rs s = Inr (s', r)"
  shows "\<forall>c\<in>set (coins s'). well_formed c"
proof -
  obtain m x where r: "r = (m, x)" by (cases r)
  from assms(2) r have c: "coins s' = (coins s)[m := update (coins s ! m) (of_bool x)]"
    by (auto simp: trial_eq split: sum.splits option.splits prod.splits)
  show ?thesis
  proof (cases "m < length (coins s)")
    case True
    with assms(1) have "well_formed (update (coins s ! m) (of_bool x))"
      by (simp add: well_formed_update)
    with assms(1) c show ?thesis
      using set_update_subset_insert [of "coins s" m] by fastforce
  next
    case False
    then have "length (coins s) \<le> m" by simp
    then have "coins s' = coins s" unfolding c by (rule list_update_beyond)
    with assms(1) show ?thesis by simp
  qed
qed

text \<open>
  C7. A coin is created with \<open>alpha = 1\<close> and \<open>beta = 1\<close>, and \<open>1 \<le> alpha\<close> and
  \<open>1 \<le> beta\<close> hold after every operation: an \<open>update\<close> with a boolean outcome keeps
  them, the sampling loop keeps them for every coin of the pool, so does a whole trial,
  and they hold of every coin when a run returns, however many trials it executed.
\<close>

theorem counters_at_least_one:
  "alpha (Coin q) = 1 \<and> beta (Coin q) = 1
   \<and> (1 \<le> alpha c \<and> 1 \<le> beta c \<longrightarrow>
        1 \<le> alpha (update c (of_bool b)) \<and> 1 \<le> beta (update c (of_bool b)))
   \<and> ((\<forall>c\<in>set (coins s). 1 \<le> alpha c \<and> 1 \<le> beta c) \<and> sample_loop rs jcs s = Inr s1 \<longrightarrow>
        (\<forall>c\<in>set (coins s1). 1 \<le> alpha c \<and> 1 \<le> beta c))
   \<and> ((\<forall>c\<in>set (coins s). 1 \<le> alpha c \<and> 1 \<le> beta c) \<and> trial rs s = Inr (s', r) \<longrightarrow>
        (\<forall>c\<in>set (coins s'). 1 \<le> alpha c \<and> 1 \<le> beta c))
   \<and> (simulate rs reply ps n g = Inr (s2, tr) \<longrightarrow>
        (\<forall>c\<in>set (coins s2). 1 \<le> alpha c \<and> 1 \<le> beta c))"
proof -
  have 1: "alpha (Coin q) = 1 \<and> beta (Coin q) = 1" by (simp add: Coin_def)
  have 2: "1 \<le> alpha c \<and> 1 \<le> beta c \<longrightarrow>
        1 \<le> alpha (update c (of_bool b)) \<and> 1 \<le> beta (update c (of_bool b))"
    using well_formed_update [of c b] by (simp add: well_formed_def)
  have 3: "(\<forall>c\<in>set (coins s). 1 \<le> alpha c \<and> 1 \<le> beta c) \<and> sample_loop rs jcs s = Inr s1 \<longrightarrow>
        (\<forall>c\<in>set (coins s1). 1 \<le> alpha c \<and> 1 \<le> beta c)"
    using sample_loop_coins [of rs jcs s s1] by simp
  have 4: "(\<forall>c\<in>set (coins s). 1 \<le> alpha c \<and> 1 \<le> beta c) \<and> trial rs s = Inr (s', r) \<longrightarrow>
        (\<forall>c\<in>set (coins s'). 1 \<le> alpha c \<and> 1 \<le> beta c)"
    using trial_well_formed [of s rs s' r] by (simp add: well_formed_def)
  have 5: "simulate rs reply ps n g = Inr (s2, tr) \<longrightarrow>
        (\<forall>c\<in>set (coins s2). 1 \<le> alpha c \<and> 1 \<le> beta c)"
    using trials_run_inv [OF run_inv_start, of rs reply "[0..<nat n]" ps g s2 tr]
    by (simp add: simulate_def run_inv_def well_formed_def)
  from 1 2 3 4 5 show ?thesis by blast
qed

theorem counters_at_least_one_witness:
  "simulate tape_source no_reply [1/2, 3/4] 3 [1/4, 1/4, 1/2, 1/8, 1, 0, 1, 1] =
     Inr (\<lparr>coins = [\<lparr>p = 1/2, alpha = 2, beta = 2\<rparr>, \<lparr>p = 3/4, alpha = 2, beta = 1\<rparr>],
           maxsample = 1, samples = [1, 1], maxcoin = Some 0, gen = []\<rparr>,
          [(0, False), (1, True), (0, True)])
   \<and> trial tape_source (start [1/2, 3/4] [1/4, 1/4, 1/8]) =
       Inr (\<lparr>coins = [\<lparr>p = 1/2, alpha = 2, beta = 1\<rparr>, Coin (3/4)], maxsample = 1/4,
             samples = [1/4, 1/4], maxcoin = Some 0, gen = []\<rparr>, (0, True))
   \<and> sample_loop tape_source (List.enumerate 0 (map Coin [1/2, 3/4]))
        (start [1/2, 3/4] [1/4, 1/4, 1/8]) =
      Inr \<lparr>coins = map Coin [1/2, 3/4], maxsample = 1/4, samples = [1/4, 1/4],
           maxcoin = Some 0, gen = [1/8]\<rparr>
   \<and> list_all (\<lambda>c. 1 \<le> alpha c \<and> 1 \<le> beta c) (coins (start [1/2, 3/4] [1/4, 1/4, 1/8]))
   \<and> list_all (\<lambda>c. 1 \<le> alpha c \<and> 1 \<le> beta c)
        [\<lparr>p = 1/2, alpha = 2, beta = 2\<rparr>, \<lparr>p = 3/4, alpha = 2, beta = 1\<rparr>]
   \<and> 1 \<le> alpha (update (Coin (1/2)) (of_bool False)) \<and> 1 \<le> beta (update (Coin (1/2)) (of_bool False))"
  using counters_at_least_one [of "1/2" "Coin (1/2)" False "start [1/2, 3/4] [1/4, 1/4, 1/8]"
      tape_source "List.enumerate 0 (map Coin [1/2, 3/4])"
      "\<lparr>coins = map Coin [1/2, 3/4], maxsample = 1/4, samples = [1/4, 1/4],
           maxcoin = Some 0, gen = [1/8]\<rparr>"
      "\<lparr>coins = [\<lparr>p = 1/2, alpha = 2, beta = 1\<rparr>, Coin (3/4)], maxsample = 1/4,
             samples = [1/4, 1/4], maxcoin = Some 0, gen = []\<rparr>" "(0, True)"
      no_reply "[1/2, 3/4]" 3 "[1/4, 1/4, 1/2, 1/8, 1, 0, 1, 1]"
      "\<lparr>coins = [\<lparr>p = 1/2, alpha = 2, beta = 2\<rparr>, \<lparr>p = 3/4, alpha = 2, beta = 1\<rparr>],
           maxsample = 1, samples = [1, 1], maxcoin = Some 0, gen = []\<rparr>"
      "[(0, False), (1, True), (0, True)]"]
  by (simp add: run_defs upt_rec)

section \<open>A run of zero trials\<close>

text \<open>
  C8. With a trial count of \<open>0\<close> the run returns at once: no trial is recorded, the
  generator is untouched, and the coins are the ones created, one for each probability,
  each with \<open>alpha = 1\<close> and \<open>beta = 1\<close>, hence with posterior mean \<open>1/2\<close>. The ranking
  of these coins (the spec's extractor) lists them all, tied, by ascending position.
\<close>

theorem zero_trials_no_op:
  "simulate rs reply ps 0 g = Inr (start ps g, [])
   \<and> map p (coins (start ps g)) = ps
   \<and> map alpha (coins (start ps g)) = replicate (length ps) 1
   \<and> map beta (coins (start ps g)) = replicate (length ps) 1
   \<and> map posterior_mean (coins (start ps g)) = replicate (length ps) (1/2)
   \<and> map fst (rank (coins (start ps g))) = [0..<length ps]
   \<and> map snd (rank (coins (start ps g))) = coins (start ps g)"
proof -
  have 1: "simulate rs reply ps 0 g = Inr (start ps g, [])" by (simp add: simulate_def)
  have 2: "map p (coins (start ps g)) = ps"
    by (simp add: start_def Coin_def comp_def)
  have 3: "map alpha (coins (start ps g)) = replicate (length ps) 1"
    by (simp add: start_def Coin_def comp_def map_replicate_const)
  have 4: "map beta (coins (start ps g)) = replicate (length ps) 1"
    by (simp add: start_def Coin_def comp_def map_replicate_const)
  have 5: "map posterior_mean (coins (start ps g)) = replicate (length ps) (1/2)"
    by (simp add: start_def comp_def posterior_mean_Coin map_replicate_const)
  have 6: "map fst (rank (coins (start ps g))) = [0..<length ps]"
    by (simp add: start_def rank_priors enumerate_eq_zip)
  have 7: "map snd (rank (coins (start ps g))) = coins (start ps g)"
    by (simp add: start_def rank_priors enumerate_eq_zip)
  from 1 2 3 4 5 6 7 show ?thesis by simp
qed

theorem zero_trials_no_op_witness:
  "simulate tape_source no_reply [1/5, 1/2, 3/4] 0 [1/3] = Inr (start [1/5, 1/2, 3/4] [1/3], [])
   \<and> map posterior_mean (coins (start [1/5, 1/2, 3/4] [1/3 :: real])) = [1/2, 1/2, 1/2]
   \<and> map fst (rank (coins (start [1/5, 1/2, 3/4] [1/3 :: real]))) = [0..<3]"
  using zero_trials_no_op [of tape_source no_reply "[1/5, 1/2, 3/4]" "[1/3]"]
  by (simp add: numeral_3_eq_3)

section \<open>Sampling\<close>

text \<open>
  C9. \<open>sample\<close> is one call of \<open>np.random.beta\<close> with the counters of the coin; on a
  coin with \<open>1 \<le> alpha\<close> and \<open>1 \<le> beta\<close>, with a generator that keeps numpy's contract,
  it returns a value of \<open>[0, 1]\<close> and a new generator state. It returns no coin: the
  counters are not changed, and the sampling loop, which calls it on every coin, returns
  the coins it was given.
\<close>

theorem sample_in_unit_interval:
  "sample rs c g = np_beta rs (alpha c) (beta c) g
   \<and> (beta_contract rs \<and> 1 \<le> alpha c \<and> 1 \<le> beta c \<longrightarrow>
        (\<exists>v g'. sample rs c g = Inr (v, g') \<and> 0 \<le> v \<and> v \<le> 1))
   \<and> (sample_loop rs jcs s = Inr s1 \<longrightarrow> coins s1 = coins s)"
proof -
  have 1: "sample rs c g = np_beta rs (alpha c) (beta c) g" by (simp add: sample_def)
  have 2: "beta_contract rs \<and> 1 \<le> alpha c \<and> 1 \<le> beta c \<longrightarrow>
        (\<exists>v g'. sample rs c g = Inr (v, g') \<and> 0 \<le> v \<and> v \<le> 1)"
  proof
    assume a: "beta_contract rs \<and> 1 \<le> alpha c \<and> 1 \<le> beta c"
    then have "0 < alpha c \<and> 0 < beta c" by simp
    with a show "\<exists>v g'. sample rs c g = Inr (v, g') \<and> 0 \<le> v \<and> v \<le> 1"
      unfolding beta_contract_def sample_def by blast
  qed
  have 3: "sample_loop rs jcs s = Inr s1 \<longrightarrow> coins s1 = coins s"
    by (simp add: sample_loop_coins)
  from 1 2 3 show ?thesis by blast
qed

theorem sample_in_unit_interval_witness:
  "beta_contract tape_source
   \<and> sample tape_source \<lparr>p = 1/2, alpha = 3, beta = 2\<rparr> [7/8, 1/8] = Inr (7/8, [1/8])
   \<and> (0::real) \<le> 7/8 \<and> (7/8::real) \<le> 1
   \<and> sample_loop tape_source [(0, \<lparr>p = 1/2, alpha = 3, beta = 2\<rparr>)]
        \<lparr>coins = [\<lparr>p = 1/2, alpha = 3, beta = 2\<rparr>], maxsample = - 1, samples = [],
          maxcoin = None, gen = [7/8, 1/8]\<rparr> =
       Inr \<lparr>coins = [\<lparr>p = 1/2, alpha = 3, beta = 2\<rparr>], maxsample = 7/8, samples = [7/8],
          maxcoin = Some 0, gen = [1/8]\<rparr>"
  using sample_in_unit_interval [of tape_source "\<lparr>p = 1/2, alpha = 3, beta = 2\<rparr>" "[7/8, 1/8]"
      "[(0, \<lparr>p = 1/2, alpha = 3, beta = 2\<rparr>)]"
      "\<lparr>coins = [\<lparr>p = 1/2, alpha = 3, beta = 2\<rparr>], maxsample = - 1, samples = [],
          maxcoin = None, gen = [7/8, 1/8]\<rparr>"
      "\<lparr>coins = [\<lparr>p = 1/2, alpha = 3, beta = 2\<rparr>], maxsample = 7/8, samples = [7/8],
          maxcoin = Some 0, gen = [1/8]\<rparr>"]
    beta_contract_tape
  by (simp add: run_defs)

section \<open>The empty pool\<close>

text \<open>
  C10. With the empty list of probabilities (the constructor's default) and at least one
  trial, the run fails with \<open>UnboundLocalError\<close>: the sampling loop of the first trial
  returns with \<open>maxcoin\<close> still unbound, and the update step reads it. On a pool that
  is not empty (coins well formed, generator keeping numpy's contract) a trial binds
  \<open>maxcoin\<close> to a coin of the pool and returns; the maximum it leaves is above the
  starting value \<open>- 1\<close>.
\<close>

theorem empty_pool_unbound_winner:
  "(0 < n \<longrightarrow> simulate rs reply [] n g = Inl UnboundLocalError)
   \<and> trial rs (start [] g) = Inl UnboundLocalError
   \<and> sample_loop rs (List.enumerate 0 (coins (start [] g))) (start [] g) = Inr (start [] g)
   \<and> (beta_contract rs \<and> coins s \<noteq> [] \<and> (\<forall>c\<in>set (coins s). well_formed c) \<longrightarrow>
        (\<exists>s' m x. trial rs s = Inr (s', (m, x)) \<and> maxcoin s' = Some m \<and> m < length (coins s)
                   \<and> - 1 < maxsample s'))"
proof -
  have 1: "0 < n \<longrightarrow> simulate rs reply [] n g = Inl UnboundLocalError"
    by (simp add: simulate_empty_pool)
  have 2: "trial rs (start [] g) = Inl UnboundLocalError"
    by (rule trial_empty_pool) (simp_all add: start_def)
  have 3: "sample_loop rs (List.enumerate 0 (coins (start [] g))) (start [] g) = Inr (start [] g)"
    by (simp add: start_def)
  have 4: "beta_contract rs \<and> coins s \<noteq> [] \<and> (\<forall>c\<in>set (coins s). well_formed c) \<longrightarrow>
        (\<exists>s' m x. trial rs s = Inr (s', (m, x)) \<and> maxcoin s' = Some m \<and> m < length (coins s)
                   \<and> - 1 < maxsample s')"
  proof
    assume a: "beta_contract rs \<and> coins s \<noteq> [] \<and> (\<forall>c\<in>set (coins s). well_formed c)"
    then have bc: "beta_contract rs" and ne: "coins s \<noteq> []" and wf: "\<forall>c\<in>set (coins s). well_formed c"
      by simp_all
    from draw_each_ok [OF bc wf] obtain vs g1 where
      d: "draw_each rs (coins s) (gen s) = Inr (vs, g1)" "length vs = length (coins s)"
         "\<forall>v\<in>set vs. 0 \<le> v \<and> v \<le> 1" by blast
    obtain M' w' where sc: "scan_max (- 1) (maxcoin s) 0 vs = (M', w')"
      by (cases "scan_max (- 1) (maxcoin s) 0 vs")
    from d(2) ne obtain v where "v \<in> set vs" by (cases vs) auto
    with d(3) have "\<exists>v\<in>set vs. - 1 < v" by force
    with scan_max_spec [OF sc] obtain m where
      m: "m < length vs" "w' = Some m" "vs ! m = M'" by auto
    from m(1) d(3) have "0 \<le> vs ! m" by simp
    with m have "- 1 < M'" by simp
    with d sc m show "\<exists>s' m x. trial rs s = Inr (s', (m, x)) \<and> maxcoin s' = Some m \<and> m < length (coins s)
                   \<and> - 1 < maxsample s'"
      by (simp add: trial_eq split: prod.splits)
  qed
  from 1 2 3 4 show ?thesis by blast
qed

theorem empty_pool_unbound_winner_witness:
  "simulate tape_source no_reply [] 1 [] = Inl UnboundLocalError
   \<and> beta_contract tape_source
   \<and> trial tape_source (start [1/2, 3/4] [1/4, 1/4, 1/8]) =
       Inr (\<lparr>coins = [\<lparr>p = 1/2, alpha = 2, beta = 1\<rparr>, Coin (3/4)], maxsample = 1/4,
             samples = [1/4, 1/4], maxcoin = Some 0, gen = []\<rparr>, (0, True))
   \<and> (\<exists>s' m x. trial tape_source (start [1/2, 3/4] [1/4, 1/4, 1/8]) = Inr (s', (m, x))
         \<and> maxcoin s' = Some m \<and> m < 2 \<and> - 1 < maxsample s')"
  using empty_pool_unbound_winner [of 1 tape_source no_reply "[]" "start [1/2, 3/4] [1/4, 1/4, 1/8]"]
    beta_contract_tape
  by (simp add: run_defs well_formed_def)

end
